theory Spec2Isabelle
  imports Complex_Main
begin

section \<open>Interleaved randomised benchmarking (supermarq/qcvv/irb.py)\<close>

text \<open>
  The development embeds the class \<open>IRB\<close> of \<open>supermarq/qcvv/irb.py\<close> (and, where it
  differs, of \<open>cirq_superstaq/qcvv/irb.py\<close>). The class is written against three
  external libraries: cirq (Clifford gates and circuits), pandas/numpy (the table of
  results) and scipy (\<open>linregress\<close>). Their parts that the class calls are modelled
  first, each in a subsection of its own, and the methods of \<open>IRB\<close> follow, one
  definition per method and under the method's name.
\<close>

subsection \<open>Python exceptions\<close>

datatype error =
    IndexError
  | ValueError string
  | NotImplementedError string

subsection \<open>cirq: single qubit Clifford gates\<close>

text \<open>
  A \<open>cirq.ops.SingleQubitCliffordGate\<close> is given by the images of the Pauli operators
  X and Z under conjugation, each a Pauli axis and a flag that says whether the sign is
  flipped (\<open>from_xz_map(x_to, z_to)\<close>). Two gates are equal when these images are.
\<close>

datatype pauli = PX | PY | PZ

type_synonym pauli_transform = "pauli \<times> bool"

record clifford =
  x_to :: pauli_transform
  z_to :: pauli_transform

text \<open>\<open>from_xz_map\<close> only builds gates that send X and Z to different axes.\<close>

definition is_clifford :: "clifford \<Rightarrow> bool" where
  "is_clifford g \<longleftrightarrow> fst (x_to g) \<noteq> fst (z_to g)"

definition gate_I :: clifford where
  "gate_I = \<lparr>x_to = (PX, False), z_to = (PZ, False)\<rparr>"

definition gate_H :: clifford where
  "gate_H = \<lparr>x_to = (PZ, False), z_to = (PX, False)\<rparr>"

definition gate_Z_sqrt :: clifford where
  "gate_Z_sqrt = \<lparr>x_to = (PY, False), z_to = (PZ, False)\<rparr>"

definition gate_X :: clifford where
  "gate_X = \<lparr>x_to = (PX, False), z_to = (PZ, True)\<rparr>"

definition gate_Y :: clifford where
  "gate_Y = \<lparr>x_to = (PX, True), z_to = (PZ, True)\<rparr>"

definition gate_Z :: clifford where
  "gate_Z = \<lparr>x_to = (PX, True), z_to = (PZ, False)\<rparr>"

text \<open>
  The image of Y is that of \<open>i X Z\<close>: for two different axes \<open>P\<close>, \<open>Q\<close> the product
  \<open>i P Q\<close> is the third axis, negated when \<open>(P, Q)\<close> is one of (X, Y), (Y, Z), (Z, X).
\<close>

fun third_axis :: "pauli \<Rightarrow> pauli \<Rightarrow> pauli_transform" where
  "third_axis PX PY = (PZ, True)"
| "third_axis PY PZ = (PX, True)"
| "third_axis PZ PX = (PY, True)"
| "third_axis PY PX = (PZ, False)"
| "third_axis PZ PY = (PX, False)"
| "third_axis PX PZ = (PY, False)"
| "third_axis P Q = (PZ, True)"

text \<open>\<open>pauli_tuple(pauli)\<close>: the image of a Pauli operator under the gate.\<close>

fun pauli_tuple :: "clifford \<Rightarrow> pauli \<Rightarrow> pauli_transform" where
  "pauli_tuple g PX = x_to g"
| "pauli_tuple g PZ = z_to g"
| "pauli_tuple g PY =
     (case third_axis (fst (x_to g)) (fst (z_to g)) of
        (r, s) \<Rightarrow> (r, (snd (x_to g) \<noteq> snd (z_to g)) \<noteq> s))"

text \<open>
  \<open>self.merged_with(second)\<close>: the gate of the circuit that applies \<open>self\<close> and then
  \<open>second\<close>. The image of X (of Z) is carried through both gates and the two sign flips
  are combined by exclusive or.
\<close>

definition merged_with :: "clifford \<Rightarrow> clifford \<Rightarrow> clifford" where
  "merged_with self second =
     (let (x_intermediate, x_flip1) = pauli_tuple self PX;
          (x_final, x_flip2) = pauli_tuple second x_intermediate;
          (z_intermediate, z_flip1) = pauli_tuple self PZ;
          (z_final, z_flip2) = pauli_tuple second z_intermediate
      in \<lparr>x_to = (x_final, x_flip1 \<noteq> x_flip2), z_to = (z_final, z_flip1 \<noteq> z_flip2)\<rparr>)"

text \<open>
  \<open>gate ** -1\<close>: the inverse gate sends \<open>Q\<close> to \<open>P\<close>, with the same flip, whenever
  the gate sends \<open>P\<close> to \<open>Q\<close>.
\<close>

definition inverse_transform :: "clifford \<Rightarrow> pauli \<Rightarrow> pauli_transform" where
  "inverse_transform g q =
     (case filter (\<lambda>p. fst (pauli_tuple g p) = q) [PX, PY, PZ] of
        [] \<Rightarrow> (q, False)
      | p # _ \<Rightarrow> (p, snd (pauli_tuple g p)))"

definition gate_inverse :: "clifford \<Rightarrow> clifford" where
  "gate_inverse g = \<lparr>x_to = inverse_transform g PX, z_to = inverse_transform g PZ\<rparr>"

text \<open>
  \<open>cirq.inverse\<close> of a list of gates: the inverses of the gates, in reverse order
  (a tuple, empty for the empty list).
\<close>

definition cirq_inverse :: "clifford list \<Rightarrow> clifford list" where
  "cirq_inverse gates = rev (map gate_inverse gates)"

subsection \<open>IRB: reducing and drawing Clifford gates\<close>

text \<open>
  \<open>_reduce_clifford_seq\<close>: \<open>cur = gate_seq[0]\<close> raises \<open>IndexError\<close> on the empty
  list; the loop then merges \<open>cur\<close> with each gate of \<open>gate_seq[1:]\<close> in order.
\<close>

fun reduce_loop :: "clifford \<Rightarrow> clifford list \<Rightarrow> clifford" where
  "reduce_loop cur [] = cur"
| "reduce_loop cur (gate # rest) = reduce_loop (merged_with cur gate) rest"

fun reduce_clifford_seq :: "clifford list \<Rightarrow> error + clifford" where
  "reduce_clifford_seq [] = Inl IndexError"
| "reduce_clifford_seq (g # gate_seq) = Inr (reduce_loop g gate_seq)"

text \<open>
  The process-wide random source is an explicit state: the sequence of raw draws and
  the position of the next one. \<open>random.choice(seq)\<close> takes one draw and returns the
  element at an index below \<open>len(seq)\<close>; the lists it is called on here are never empty.
\<close>

record rng =
  draws :: "nat \<Rightarrow> nat"
  pos :: nat

definition random_choice :: "'a list \<Rightarrow> rng \<Rightarrow> 'a \<times> rng" where
  "random_choice seq r = (seq ! (draws r (pos r) mod length seq), r\<lparr>pos := Suc (pos r)\<rparr>)"

definition set_A :: "(error + clifford) list" where
  "set_A =
     [Inr gate_I,
      Inr gate_Z_sqrt,
      Inr gate_H,
      reduce_clifford_seq [gate_H, gate_Z_sqrt],
      reduce_clifford_seq [gate_Z_sqrt, gate_H],
      reduce_clifford_seq [gate_H, gate_Z_sqrt, gate_H]]"

definition set_B :: "clifford list" where
  "set_B = [gate_I, gate_X, gate_Y, gate_Z]"

text \<open>
  \<open>_random_single_qubit_clifford\<close>: building \<open>set_A\<close> evaluates three reductions,
  and an exception of any of them would leave the method before a draw is made.
\<close>

fun sequence_sum :: "('e + 'a) list \<Rightarrow> 'e + 'a list" where
  "sequence_sum [] = Inr []"
| "sequence_sum (Inl e # _) = Inl e"
| "sequence_sum (Inr x # xs) = (case sequence_sum xs of Inl e \<Rightarrow> Inl e | Inr ys \<Rightarrow> Inr (x # ys))"

definition random_single_qubit_clifford :: "rng \<Rightarrow> error + clifford \<times> rng" where
  "random_single_qubit_clifford r =
     (case sequence_sum set_A of
        Inl e \<Rightarrow> Inl e
      | Inr A \<Rightarrow>
          (let (a, r1) = random_choice A r;
               (b, r2) = random_choice set_B r1
           in (case reduce_clifford_seq [a, b] of
                 Inl e \<Rightarrow> Inl e
               | Inr g \<Rightarrow> Inr (g, r2))))"

text \<open>
  The gate drawn when \<open>random.choice\<close> returns the element at index \<open>i\<close> of
  \<open>set_A\<close> and the element at index \<open>j\<close> of \<open>set_B\<close>.
\<close>

definition clifford_of_choices :: "nat \<Rightarrow> nat \<Rightarrow> error + clifford" where
  "clifford_of_choices i j =
     (case sequence_sum set_A of
        Inl e \<Rightarrow> Inl e
      | Inr A \<Rightarrow> reduce_clifford_seq [A ! i, set_B ! j])"

definition all_choices :: "(nat \<times> nat) list" where
  "all_choices = List.product [0..<6] [0..<4]"

definition clifford_outcomes :: "(error + clifford) list" where
  "clifford_outcomes = map (\<lambda>(i, j). clifford_of_choices i j) all_choices"

subsection \<open>cirq: circuits on one qubit\<close>

text \<open>
  Every operation of the experiment acts on the same single qubit, so a circuit holds
  one operation per moment and is the list of its operations in order:
  \<open>len(circuit)\<close> is the length of the list and \<open>circuit + op\<close> is a new circuit with
  \<open>op\<close> in a further moment. A Clifford circuit is the list of its gates
  (\<open>[op.gate for op in circuit.all_operations()]\<close>); the circuit of a sample also
  ends with the measurement.
\<close>

type_synonym circuit = "clifford list"

datatype operation = CliffordOp clifford | MeasureOp

subsection \<open>IRB: building the circuits\<close>

record irb =
  interleaved_gate :: "clifford option"
  num_qubits :: int

definition irb_init :: "clifford option \<Rightarrow> int \<Rightarrow> error + irb" where
  "irb_init gate n =
     (if n \<noteq> 1
      then Inl (NotImplementedError ''IRB experiment is currently only implemented for single qubit use'')
      else Inr \<lparr>interleaved_gate = gate, num_qubits = 1\<rparr>)"

text \<open>\<open>_invert_clifford_circuit\<close>, on the value of the circuit.\<close>

definition invert_clifford_circuit :: "circuit \<Rightarrow> error + circuit" where
  "invert_clifford_circuit c =
     (let clifford_gates = c in
      case reduce_clifford_seq (cirq_inverse clifford_gates) of
        Inl e \<Rightarrow> Inl e
      | Inr inv_element \<Rightarrow> Inr (c @ [inv_element]))"

text \<open>
  Modelled from the spec: \<open>_interleave_op\<close> is a method of the base class
  \<open>BenchmarkingExperiment\<close> (\<open>supermarq/qcvv/base_experiment.py\<close>), which is not among
  the sources. The specification says of the interleaved variant: "insert the
  interleaving gate after every element of the base sequence". The builder calls it
  with \<open>include_final=True\<close>.
\<close>

fun interleave_op :: "circuit \<Rightarrow> clifford \<Rightarrow> circuit" where
  "interleave_op [] op = []"
| "interleave_op (g # c) op = g # op # interleave_op c op"

text \<open>
  A \<open>Sample\<close> with the three entries of its \<open>data\<close> dictionary (the entry
  \<open>"experiment"\<close> is the field \<open>experiment_name\<close>). The class is
  declared in the base module; only the fields the builder sets are kept.
\<close>

record sample =
  raw_circuit :: "operation list"
  num_cycles :: int
  circuit_depth :: nat
  experiment_name :: string

definition measured :: "circuit \<Rightarrow> operation list" where
  "measured c = map CliffordOp c @ [MeasureOp]"

text \<open>The list comprehension that draws the base circuit: \<open>range(depth)\<close> draws.\<close>

fun random_cliffords :: "nat \<Rightarrow> rng \<Rightarrow> error + circuit \<times> rng" where
  "random_cliffords 0 r = Inr ([], r)"
| "random_cliffords (Suc n) r =
     (case random_single_qubit_clifford r of
        Inl e \<Rightarrow> Inl e
      | Inr (g, r1) \<Rightarrow>
          (case random_cliffords n r1 of
             Inl e \<Rightarrow> Inl e
           | Inr (gs, r2) \<Rightarrow> Inr (g # gs, r2)))"

text \<open>
  The body of the loop of \<open>_build_circuits\<close> once the base circuit is drawn: the RB
  sample, and the IRB sample when an interleaving gate is configured.
\<close>

definition build_samples :: "irb \<Rightarrow> int \<Rightarrow> circuit \<Rightarrow> error + sample list" where
  "build_samples self depth base_circuit =
     (case invert_clifford_circuit base_circuit of
        Inl e \<Rightarrow> Inl e
      | Inr rb_circuit \<Rightarrow>
          (let rb_sample = \<lparr>raw_circuit = measured rb_circuit, num_cycles = depth,
                            circuit_depth = length rb_circuit, experiment_name = ''RB''\<rparr>
           in case interleaved_gate self of
                None \<Rightarrow> Inr [rb_sample]
              | Some gate \<Rightarrow>
                  (case invert_clifford_circuit (interleave_op base_circuit gate) of
                     Inl e \<Rightarrow> Inl e
                   | Inr irb_circuit \<Rightarrow>
                       Inr [rb_sample,
                            \<lparr>raw_circuit = measured irb_circuit, num_cycles = depth,
                             circuit_depth = length irb_circuit, experiment_name = ''IRB''\<rparr>])))"

text \<open>
  The loop over \<open>product(range(num_circuits), cycle_depths)\<close>: trials outermost, the
  depths in their order within each trial. An exception ends the loop.
\<close>

fun build_loop :: "irb \<Rightarrow> (nat \<times> int) list \<Rightarrow> sample list \<Rightarrow> rng \<Rightarrow> error + sample list \<times> rng" where
  "build_loop self [] samples r = Inr (samples, r)"
| "build_loop self ((_, depth) # rest) samples r =
     (case random_cliffords (nat depth) r of
        Inl e \<Rightarrow> Inl e
      | Inr (base_circuit, r1) \<Rightarrow>
          (case build_samples self depth base_circuit of
             Inl e \<Rightarrow> Inl e
           | Inr new \<Rightarrow> build_loop self rest (samples @ new) r1))"

definition build_circuits :: "irb \<Rightarrow> int \<Rightarrow> int list \<Rightarrow> rng \<Rightarrow> error + sample list \<times> rng" where
  "build_circuits self num_circuits cycle_depths r =
     build_loop self (List.product [0..<nat num_circuits] cycle_depths) [] r"

subsection \<open>Circuits as objects\<close>

text \<open>
  A \<open>cirq.Circuit\<close> is a mutable object and \<open>_invert_clifford_circuit\<close> receives a
  reference to it. The store holds the circuits by address; a new object takes the next
  free address. \<open>circuit + op\<close> is \<open>self.copy()\<close> followed by an append to the copy.
\<close>

type_synonym store = "circuit list"

definition circuit_copy :: "store \<Rightarrow> nat \<Rightarrow> store \<times> nat" where
  "circuit_copy h a = (h @ [h ! a], length h)"

definition circuit_append :: "store \<Rightarrow> nat \<Rightarrow> clifford \<Rightarrow> store" where
  "circuit_append h a op = h[a := h ! a @ [op]]"

definition circuit_add :: "store \<Rightarrow> nat \<Rightarrow> clifford \<Rightarrow> store \<times> nat" where
  "circuit_add h a op = (let (h1, b) = circuit_copy h a in (circuit_append h1 b op, b))"

text \<open>\<open>_invert_clifford_circuit\<close> of \<open>supermarq/qcvv/irb.py\<close>, on the store.\<close>

definition invert_clifford_circuit_obj :: "store \<Rightarrow> nat \<Rightarrow> error + store \<times> nat" where
  "invert_clifford_circuit_obj h a =
     (let clifford_gates = h ! a in
      case reduce_clifford_seq (cirq_inverse clifford_gates) of
        Inl e \<Rightarrow> Inl e
      | Inr inv_element \<Rightarrow> Inr (circuit_add h a inv_element))"

text \<open>
  \<open>_invert_clifford_circuit\<close> of \<open>cirq_superstaq/qcvv/irb.py\<close>: the inverse is
  appended to the local list of gates and a new circuit is built from that list.
\<close>

definition invert_clifford_circuit_css_obj :: "store \<Rightarrow> nat \<Rightarrow> error + store \<times> nat" where
  "invert_clifford_circuit_css_obj h a =
     (let clifford_gates = h ! a in
      case reduce_clifford_seq (cirq_inverse clifford_gates) of
        Inl e \<Rightarrow> Inl e
      | Inr inv_element \<Rightarrow>
          (let clifford_gates = clifford_gates @ [inv_element]
           in Inr (h @ [clifford_gates], length h)))"

subsection \<open>numpy: floating point values\<close>

text \<open>
  A float of numpy is a finite number, one of the two infinities or NaN. Finite numbers
  are modelled by the reals: rounding, overflow and the sign of zero are left out, the
  special values and the way they arise and propagate are kept, since the analysis
  depends on them (\<open>log\<close> of a negative number is NaN, \<open>log 0\<close> is minus infinity,
  \<open>0 / 0\<close> is NaN). Numpy warns in these cases and raises nothing.
\<close>

datatype npfloat = Fin real | PosInf | NegInf | NaN

fun np_neg :: "npfloat \<Rightarrow> npfloat" where
  "np_neg (Fin a) = Fin (- a)"
| "np_neg PosInf = NegInf"
| "np_neg NegInf = PosInf"
| "np_neg NaN = NaN"

fun np_add :: "npfloat \<Rightarrow> npfloat \<Rightarrow> npfloat" where
  "np_add NaN _ = NaN"
| "np_add _ NaN = NaN"
| "np_add (Fin a) (Fin b) = Fin (a + b)"
| "np_add (Fin a) b = b"
| "np_add a (Fin b) = a"
| "np_add PosInf PosInf = PosInf"
| "np_add NegInf NegInf = NegInf"
| "np_add PosInf NegInf = NaN"
| "np_add NegInf PosInf = NaN"

definition np_sub :: "npfloat \<Rightarrow> npfloat \<Rightarrow> npfloat" where
  "np_sub a b = np_add a (np_neg b)"

text \<open>The sign of a value that is not NaN: \<open>-1\<close>, \<open>0\<close> or \<open>1\<close>.\<close>

fun np_sign :: "npfloat \<Rightarrow> int" where
  "np_sign (Fin a) = (if a < 0 then - 1 else if a = 0 then 0 else 1)"
| "np_sign PosInf = 1"
| "np_sign NegInf = - 1"
| "np_sign NaN = 0"

definition signed_inf :: "int \<Rightarrow> npfloat" where
  "signed_inf s = (if s < 0 then NegInf else PosInf)"

fun np_mul :: "npfloat \<Rightarrow> npfloat \<Rightarrow> npfloat" where
  "np_mul NaN _ = NaN"
| "np_mul _ NaN = NaN"
| "np_mul (Fin a) (Fin b) = Fin (a * b)"
| "np_mul a b =
     (if np_sign a = 0 \<or> np_sign b = 0 then NaN else signed_inf (np_sign a * np_sign b))"

fun np_div :: "npfloat \<Rightarrow> npfloat \<Rightarrow> npfloat" where
  "np_div NaN _ = NaN"
| "np_div _ NaN = NaN"
| "np_div (Fin a) (Fin b) =
     (if b \<noteq> 0 then Fin (a / b)
      else if a = 0 then NaN
      else signed_inf (np_sign (Fin a)))"
| "np_div (Fin a) b = Fin 0"
| "np_div a (Fin b) = signed_inf (np_sign a * (if b < 0 then - 1 else 1))"
| "np_div a b = NaN"

fun np_sqrt :: "npfloat \<Rightarrow> npfloat" where
  "np_sqrt (Fin a) = (if a < 0 then NaN else Fin (sqrt a))"
| "np_sqrt PosInf = PosInf"
| "np_sqrt NegInf = NaN"
| "np_sqrt NaN = NaN"

fun np_exp :: "npfloat \<Rightarrow> npfloat" where
  "np_exp (Fin a) = Fin (exp a)"
| "np_exp PosInf = PosInf"
| "np_exp NegInf = Fin 0"
| "np_exp NaN = NaN"

fun np_log :: "npfloat \<Rightarrow> npfloat" where
  "np_log (Fin a) = (if a < 0 then NaN else if a = 0 then NegInf else Fin (ln a))"
| "np_log PosInf = PosInf"
| "np_log NegInf = NaN"
| "np_log NaN = NaN"

text \<open>Comparisons: every comparison with NaN is false.\<close>

fun np_less :: "npfloat \<Rightarrow> npfloat \<Rightarrow> bool" where
  "np_less NaN _ = False"
| "np_less _ NaN = False"
| "np_less (Fin a) (Fin b) = (a < b)"
| "np_less a PosInf = (a \<noteq> PosInf)"
| "np_less NegInf b = (b \<noteq> NegInf)"
| "np_less a b = False"

definition np_eq :: "npfloat \<Rightarrow> npfloat \<Rightarrow> bool" where
  "np_eq a b \<longleftrightarrow> a \<noteq> NaN \<and> a = b"

definition np_sum :: "npfloat list \<Rightarrow> npfloat" where
  "np_sum xs = foldl np_add (Fin 0) xs"

definition np_mean :: "npfloat list \<Rightarrow> npfloat" where
  "np_mean xs = np_div (np_sum xs) (Fin (real (length xs)))"

text \<open>\<open>np.amax\<close> and \<open>np.amin\<close> of a non-empty array: NaN if an element is NaN.\<close>

definition np_maximum :: "npfloat \<Rightarrow> npfloat \<Rightarrow> npfloat" where
  "np_maximum a b = (if a = NaN \<or> b = NaN then NaN else if np_less a b then b else a)"

definition np_minimum :: "npfloat \<Rightarrow> npfloat \<Rightarrow> npfloat" where
  "np_minimum a b = (if a = NaN \<or> b = NaN then NaN else if np_less b a then b else a)"

definition np_amax :: "npfloat list \<Rightarrow> npfloat" where
  "np_amax xs = foldl np_maximum (hd xs) (tl xs)"

definition np_amin :: "npfloat list \<Rightarrow> npfloat" where
  "np_amin xs = foldl np_minimum (hd xs) (tl xs)"

text \<open>
  \<open>np.cov(x, y, bias=1)\<close> for two arrays of the same length: the mean squared
  deviation of \<open>x\<close>, the mean product of the deviations, the mean squared deviation of
  \<open>y\<close>.
\<close>

definition np_cov_bias :: "npfloat list \<Rightarrow> npfloat list \<Rightarrow> npfloat \<times> npfloat \<times> npfloat" where
  "np_cov_bias x y =
     (let xmean = np_mean x;
          ymean = np_mean y;
          dx = map (\<lambda>v. np_sub v xmean) x;
          dy = map (\<lambda>v. np_sub v ymean) y;
          fact = Fin (real (length x))
      in (np_div (np_sum (map2 np_mul dx dx)) fact,
          np_div (np_sum (map2 np_mul dx dy)) fact,
          np_div (np_sum (map2 np_mul dy dy)) fact))"

subsection \<open>scipy: \<open>linregress\<close>\<close>

text \<open>
  \<open>scipy.stats.linregress\<close> is imported without a version, and what it does on
  degenerate input (no observation, one observation, constant data) is not the same in
  every version of scipy. The analysis therefore takes the regression as a parameter: a
  function from two arrays of the same length to an exception or to the two fields of
  the result that the analysis reads.
\<close>

record linregress_result =
  slope :: npfloat
  stderr :: npfloat

type_synonym regression = "npfloat list \<Rightarrow> npfloat list \<Rightarrow> error + linregress_result"

text \<open>
  The regression as scipy computes it up to version 1.15, used below to evaluate the
  analysis on tables. It raises \<open>ValueError\<close> on empty input and when there are
  several observations that all have the same \<open>x\<close>. It does not raise on a single
  observation: the slope is then \<open>0 / 0\<close>. Later versions treat empty input and
  constant data differently.
\<close>

definition linregress_1_15 :: regression where
  "linregress_1_15 x y =
     (if length x = 0 \<or> length y = 0 then Inl (ValueError ''Inputs must not be empty.'')
      else if np_eq (np_amax x) (np_amin x) \<and> length x > 1
      then Inl (ValueError ''Cannot calculate a linear regression if all x values are identical'')
      else
        (let n = length x;
             (ssxm, ssxym, ssym) = np_cov_bias x y;
             r = (if np_eq ssxm (Fin 0) \<or> np_eq ssym (Fin 0) then Fin 0
                  else (let r = np_div ssxym (np_sqrt (np_mul ssxm ssym))
                        in if np_less (Fin 1) r then Fin 1
                           else if np_less r (Fin (- 1)) then Fin (- 1)
                           else r));
             slope = np_div ssxym ssxm;
             slope_stderr =
               (if n = 2 then Fin 0
                else (let df = Fin (real n - 2)
                      in np_sqrt (np_div (np_div (np_mul (np_sub (Fin 1) (np_mul r r)) ssym) ssxm) df)))
         in Inr \<lparr>slope = slope, stderr = slope_stderr\<rparr>))"

subsection \<open>IRB: analysing the results\<close>

text \<open>
  A row of \<open>raw_data\<close> as \<open>_process_probabilities\<close> builds it: the three entries of
  the sample's \<open>data\<close> and the probability of the bitstring \<open>"0"\<close>. The columns of the
  other bitstrings are not read by the analysis and hold numbers; they are left out.
\<close>

record raw_row =
  clifford_depth :: int
  circuit_depth_col :: nat
  experiment_col :: string
  prob_0 :: npfloat

text \<open>A row with the two columns that \<open>analyze_results\<close> adds.\<close>

record data_row =
  source :: raw_row
  survival_prob :: npfloat
  log_survival_prob :: npfloat

definition with_survival_columns :: "raw_row \<Rightarrow> data_row" where
  "with_survival_columns row =
     (let survival = np_sub (np_mul (Fin 2) (prob_0 row)) (Fin 1)
      in \<lparr>source = row, survival_prob = survival, log_survival_prob = np_log survival\<rparr>)"

text \<open>\<open>dropna(axis=0)\<close>: the rows without a NaN in any column. Infinities are kept.\<close>

definition dropna :: "data_row list \<Rightarrow> data_row list" where
  "dropna rows =
     filter (\<lambda>r. prob_0 (source r) \<noteq> NaN \<and> survival_prob r \<noteq> NaN \<and> log_survival_prob r \<noteq> NaN)
       rows"

text \<open>\<open>query("experiment == name")\<close>.\<close>

definition query :: "data_row list \<Rightarrow> string \<Rightarrow> data_row list" where
  "query rows name = filter (\<lambda>r. experiment_col (source r) = name) rows"

text \<open>The two arguments of \<open>linregress\<close> for the rows of one experiment.\<close>

definition regression_x :: "data_row list \<Rightarrow> string \<Rightarrow> npfloat list" where
  "regression_x rows name = map (\<lambda>r. Fin (real_of_int (clifford_depth (source r)))) (query rows name)"

definition regression_y :: "data_row list \<Rightarrow> string \<Rightarrow> npfloat list" where
  "regression_y rows name = map (\<lambda>r. np_log (survival_prob r)) (query rows name)"

text \<open>\<open>2**-self.num_qubits\<close> for a Python integer.\<close>

definition pow2_neg :: "int \<Rightarrow> real" where
  "pow2_neg n = (if 0 \<le> n then 1 / 2 ^ nat n else 2 ^ nat (- n))"

text \<open>
  The results. The fields \<open>target\<close> and \<open>total_circuits\<close> of the base class
  \<open>BenchmarkingResults\<close> are bookkeeping and are left out.
\<close>

record decay_results =
  rb_decay_coefficient :: npfloat
  rb_decay_coefficient_std :: npfloat

record rb_results = decay_results +
  average_gate_error :: npfloat
  average_gate_error_std :: npfloat

record irb_results = decay_results +
  irb_decay_coefficient :: npfloat
  irb_decay_coefficient_std :: npfloat
  average_interleaved_gate_error :: npfloat
  average_interleaved_gate_error_std :: npfloat

datatype results = RBResults rb_results | IRBResults irb_results

text \<open>
  \<open>analyze_results\<close>, with the regression it calls as its first argument. The table
  \<open>raw_data\<close> is changed in place, so the new table is returned with the results. An
  exception of \<open>linregress\<close> is not caught. Plotting is left out.
\<close>

definition analyze_results ::
    "regression \<Rightarrow> irb \<Rightarrow> raw_row list \<Rightarrow> error + data_row list \<times> results" where
  "analyze_results linregress self raw_data =
     (let raw_data = dropna (map with_survival_columns raw_data) in
      case linregress (regression_x raw_data ''RB'') (regression_y raw_data ''RB'') of
        Inl e \<Rightarrow> Inl e
      | Inr rb_model \<Rightarrow>
          (let rb_decay_coefficient = np_exp (slope rb_model);
               rb_decay_coefficient_std = np_mul (stderr rb_model) rb_decay_coefficient
           in case interleaved_gate self of
                None \<Rightarrow>
                  Inr (raw_data, RBResults
                    \<lparr>rb_decay_coefficient = rb_decay_coefficient,
                     rb_decay_coefficient_std = rb_decay_coefficient_std,
                     average_gate_error =
                       np_mul (Fin (1 - pow2_neg (num_qubits self)))
                         (np_sub (Fin 1) rb_decay_coefficient),
                     average_gate_error_std =
                       np_mul (Fin (1 - pow2_neg (num_qubits self))) rb_decay_coefficient_std\<rparr>)
              | Some _ \<Rightarrow>
                  (case linregress (regression_x raw_data ''IRB'') (regression_y raw_data ''IRB'') of
                     Inl e \<Rightarrow> Inl e
                   | Inr irb_model \<Rightarrow>
                       (let irb_decay_coefficient = np_exp (slope irb_model);
                            irb_decay_coefficient_std =
                              np_mul (stderr irb_model) irb_decay_coefficient;
                            interleaved_gate_error =
                              np_mul (np_sub (Fin 1) (np_div irb_decay_coefficient rb_decay_coefficient))
                                (Fin (1 - pow2_neg (num_qubits self)));
                            term1 = np_div irb_decay_coefficient_std
                                      (np_mul (Fin 2) rb_decay_coefficient);
                            term2 = np_div (np_mul irb_decay_coefficient rb_decay_coefficient_std)
                                      (np_mul (Fin 2) (np_mul rb_decay_coefficient rb_decay_coefficient));
                            interleaved_gate_error_std =
                              np_sqrt (np_add (np_mul term1 term1) (np_mul term2 term2))
                        in Inr (raw_data, IRBResults
                             \<lparr>rb_decay_coefficient = rb_decay_coefficient,
                              rb_decay_coefficient_std = rb_decay_coefficient_std,
                              irb_decay_coefficient = irb_decay_coefficient,
                              irb_decay_coefficient_std = irb_decay_coefficient_std,
                              average_interleaved_gate_error = interleaved_gate_error,
                              average_interleaved_gate_error_std = interleaved_gate_error_std\<rparr>)))))"

subsection \<open>Example tables\<close>

text \<open>
  Small tables of results on which the analysis is evaluated below. A row holds its
  depth, the size of its circuit, its experiment and the probability of \<open>"0"\<close>.
\<close>

definition rb_row :: "int \<Rightarrow> real \<Rightarrow> raw_row" where
  "rb_row depth p = \<lparr>clifford_depth = depth, circuit_depth_col = nat depth + 1,
                     experiment_col = ''RB'', prob_0 = Fin p\<rparr>"

definition irb_row :: "int \<Rightarrow> real \<Rightarrow> raw_row" where
  "irb_row depth p = \<lparr>clifford_depth = depth, circuit_depth_col = 2 * nat depth + 1,
                      experiment_col = ''IRB'', prob_0 = Fin p\<rparr>"

definition example_plain_data :: "raw_row list" where
  "example_plain_data = [rb_row 1 1, rb_row 2 (3 / 4)]"

definition example_interleaved_data :: "raw_row list" where
  "example_interleaved_data = [rb_row 1 1, irb_row 1 1, rb_row 2 (3 / 4), irb_row 2 (5 / 8)]"

definition example_one_usable_row :: "raw_row list" where
  "example_one_usable_row = [rb_row 1 1, rb_row 2 (1 / 4)]"

definition example_zero_survival :: "raw_row list" where
  "example_zero_survival = [rb_row 1 1, rb_row 2 (1 / 2), rb_row 3 (1 / 4)]"

definition example_no_usable_row :: "raw_row list" where
  "example_no_usable_row = [rb_row 1 (1 / 4), rb_row 2 (1 / 8)]"

definition example_one_interleaved_row :: "raw_row list" where
  "example_one_interleaved_row = [rb_row 1 1, irb_row 1 1, rb_row 2 (3 / 4), irb_row 2 (1 / 4)]"

definition example_one_plain_row :: "raw_row list" where
  "example_one_plain_row = [rb_row 1 1, irb_row 1 1, rb_row 2 (1 / 4), irb_row 2 (3 / 4)]"

definition example_plain_regression_fails :: "raw_row list" where
  "example_plain_regression_fails = [rb_row 1 1, rb_row 1 (3 / 4), irb_row 1 1]"

section \<open>Properties\<close>

subsection \<open>The Clifford gates form a group under \<open>merged_with\<close>\<close>

lemma is_clifford_cases:
  assumes "is_clifford g"
  obtains a b where "g = \<lparr>x_to = (PX, a), z_to = (PY, b)\<rparr>"
  | a b where "g = \<lparr>x_to = (PX, a), z_to = (PZ, b)\<rparr>"
  | a b where "g = \<lparr>x_to = (PY, a), z_to = (PX, b)\<rparr>"
  | a b where "g = \<lparr>x_to = (PY, a), z_to = (PZ, b)\<rparr>"
  | a b where "g = \<lparr>x_to = (PZ, a), z_to = (PX, b)\<rparr>"
  | a b where "g = \<lparr>x_to = (PZ, a), z_to = (PY, b)\<rparr>"
proof -
  obtain p a q b where g: "g = \<lparr>x_to = (p, a), z_to = (q, b)\<rparr>" by (cases g) auto
  from assms that show thesis unfolding g is_clifford_def
    by (cases p; cases q) simp_all
qed

lemma merged_I_left: "merged_with gate_I g = g"
  by (cases g) (auto simp: merged_with_def gate_I_def split: prod.splits)

lemma pauli_tuple_I: "pauli_tuple gate_I p = (p, False)"
  by (cases p) (simp_all add: gate_I_def)

lemma merged_I_right: "merged_with g gate_I = g"
  by (cases g) (auto simp: merged_with_def pauli_tuple_I split: prod.splits)


lemma merged_closed:
  assumes "is_clifford a" "is_clifford b"
  shows "is_clifford (merged_with a b)"
proof (rule is_clifford_cases [OF assms(1)]; rule is_clifford_cases [OF assms(2)])
qed (simp_all add: merged_with_def is_clifford_def)


lemma pauli_tuple_merged:
  assumes "is_clifford a" "is_clifford b"
  shows "pauli_tuple (merged_with a b) p =
    (let (q, f1) = pauli_tuple a p; (r, f2) = pauli_tuple b q in (r, f1 \<noteq> f2))"
proof (rule is_clifford_cases [OF assms(1)]; rule is_clifford_cases [OF assms(2)]; cases p)
qed (auto simp add: merged_with_def)


lemma inverse_closed:
  assumes "is_clifford a"
  shows "is_clifford (gate_inverse a)"
proof (rule is_clifford_cases [OF assms(1)])
qed (simp_all add: is_clifford_def gate_inverse_def inverse_transform_def)

lemma merged_inverse_right:
  assumes "is_clifford a"
  shows "merged_with a (gate_inverse a) = gate_I"
proof (rule is_clifford_cases [OF assms(1)])
qed (auto simp add: gate_inverse_def inverse_transform_def merged_with_def gate_I_def)

lemma merged_inverse_left:
  assumes "is_clifford a"
  shows "merged_with (gate_inverse a) a = gate_I"
proof (rule is_clifford_cases [OF assms(1)])
qed (auto simp add: gate_inverse_def inverse_transform_def merged_with_def gate_I_def)


lemma clifford_eqI: "x_to g = x_to h \<Longrightarrow> z_to g = z_to h \<Longrightarrow> (g::clifford) = h"
  by simp

lemma x_to_merged: "x_to (merged_with a b) =
    (let (q, f1) = pauli_tuple a PX; (r, f2) = pauli_tuple b q in (r, f1 \<noteq> f2))"
  by (simp add: merged_with_def split: prod.splits)

lemma z_to_merged: "z_to (merged_with a b) =
    (let (q, f1) = pauli_tuple a PZ; (r, f2) = pauli_tuple b q in (r, f1 \<noteq> f2))"
  by (simp add: merged_with_def split: prod.splits)

lemma merged_assoc:
  assumes "is_clifford b" "is_clifford c"
  shows "merged_with (merged_with a b) c = merged_with a (merged_with b c)"
proof (rule clifford_eqI)
  show "x_to (merged_with (merged_with a b) c) = x_to (merged_with a (merged_with b c))"
    by (auto simp add: x_to_merged pauli_tuple_merged [OF assms] split: prod.splits)
  show "z_to (merged_with (merged_with a b) c) = z_to (merged_with a (merged_with b c))"
    by (auto simp add: z_to_merged pauli_tuple_merged [OF assms] split: prod.splits)
qed

lemma inverse_merged:
  assumes a: "is_clifford a" and b: "is_clifford b"
  shows "gate_inverse (merged_with a b) = merged_with (gate_inverse b) (gate_inverse a)"
proof -
  let ?c = "merged_with a b"
  let ?d = "merged_with (gate_inverse b) (gate_inverse a)"
  have c: "is_clifford ?c" by (rule merged_closed [OF a b])
  have ia: "is_clifford (gate_inverse a)" and ib: "is_clifford (gate_inverse b)"
    by (rule inverse_closed [OF a], rule inverse_closed [OF b])
  have d: "is_clifford ?d" by (rule merged_closed [OF ib ia])
  have "merged_with b ?d = merged_with (merged_with b (gate_inverse b)) (gate_inverse a)"
    by (simp add: merged_assoc [OF ib ia])
  also have "\<dots> = gate_inverse a"
    by (simp add: merged_inverse_right [OF b] merged_I_left)
  finally have bd: "merged_with b ?d = gate_inverse a" .
  have "merged_with ?c ?d = merged_with a (merged_with b ?d)"
    by (rule merged_assoc [OF b d])
  also have "\<dots> = gate_I"
    by (simp add: bd merged_inverse_right [OF a])
  finally have cd: "merged_with ?c ?d = gate_I" .
  have "?d = merged_with (merged_with (gate_inverse ?c) ?c) ?d"
    by (simp add: merged_inverse_left [OF c] merged_I_left)
  also have "\<dots> = merged_with (gate_inverse ?c) (merged_with ?c ?d)"
    by (rule merged_assoc [OF c d])
  also have "\<dots> = gate_inverse ?c"
    by (simp add: cd merged_I_right)
  finally show ?thesis by simp
qed

subsection \<open>Sequence reduction\<close>

lemma reduce_loop_foldl: "reduce_loop cur gate_seq = foldl merged_with cur gate_seq"
  by (induction gate_seq arbitrary: cur) simp_all

text \<open>
  Claim C9. Sequence reduction of a non-empty list of Clifford gates returns the left
  fold of the list under \<open>merged_with\<close>, starting from the first gate and merging
  each later gate in order; on the empty list it fails, with the \<open>IndexError\<close> of
  \<open>gate_seq[0]\<close>.
\<close>

theorem reduce_clifford_seq_fold:
  "reduce_clifford_seq [] = Inl IndexError \<and>
   reduce_clifford_seq (g # gate_seq) = Inr (foldl merged_with g gate_seq)"
  by (simp add: reduce_loop_foldl)

subsection \<open>Reducing a circuit and its inverse\<close>

lemma is_clifford_I: "is_clifford gate_I"
  by (simp add: is_clifford_def gate_I_def)

lemma inverse_I: "gate_inverse gate_I = gate_I"
  by (simp add: gate_inverse_def inverse_transform_def gate_I_def)

lemma reduce_loop_valid:
  "is_clifford c \<Longrightarrow> list_all is_clifford gs \<Longrightarrow> is_clifford (reduce_loop c gs)"
  by (induction gs arbitrary: c) (simp_all add: merged_closed)

lemma reduce_loop_append: "reduce_loop c (xs @ ys) = reduce_loop (reduce_loop c xs) ys"
  by (induction xs arbitrary: c) simp_all

lemma reduce_loop_merged:
  "list_all is_clifford gs \<Longrightarrow> reduce_loop c gs = merged_with c (reduce_loop gate_I gs)"
proof (induction gs arbitrary: c)
  case Nil
  show ?case by (simp add: merged_I_right)
next
  case (Cons g gs)
  from Cons.prems have g: "is_clifford g" and gs: "list_all is_clifford gs" by simp_all
  have P: "is_clifford (reduce_loop gate_I gs)"
    by (rule reduce_loop_valid [OF is_clifford_I gs])
  have "reduce_loop c (g # gs) = merged_with (merged_with c g) (reduce_loop gate_I gs)"
    using Cons.IH [OF gs, of "merged_with c g"] by simp
  also have "\<dots> = merged_with c (merged_with g (reduce_loop gate_I gs))"
    by (rule merged_assoc [OF g P])
  also have "merged_with g (reduce_loop gate_I gs) = reduce_loop gate_I (g # gs)"
    using Cons.IH [OF gs, of g] by (simp add: merged_I_left)
  finally show ?case .
qed

lemma reduce_loop_inverse:
  "list_all is_clifford gs \<Longrightarrow>
   reduce_loop gate_I (cirq_inverse gs) = gate_inverse (reduce_loop gate_I gs)"
proof (induction gs)
  case Nil
  show ?case by (simp add: cirq_inverse_def inverse_I)
next
  case (Cons g gs)
  from Cons.prems have g: "is_clifford g" and gs: "list_all is_clifford gs" by simp_all
  have P: "is_clifford (reduce_loop gate_I gs)"
    by (rule reduce_loop_valid [OF is_clifford_I gs])
  have "reduce_loop gate_I (cirq_inverse (g # gs)) =
        merged_with (reduce_loop gate_I (cirq_inverse gs)) (gate_inverse g)"
    by (simp add: cirq_inverse_def reduce_loop_append)
  also have "\<dots> = merged_with (gate_inverse (reduce_loop gate_I gs)) (gate_inverse g)"
    using Cons.IH [OF gs] by simp
  also have "\<dots> = gate_inverse (merged_with g (reduce_loop gate_I gs))"
    by (rule inverse_merged [OF g P, symmetric])
  also have "merged_with g (reduce_loop gate_I gs) = reduce_loop gate_I (g # gs)"
    using reduce_loop_merged [OF gs, of g] by (simp add: merged_I_left)
  finally show ?case .
qed

lemma reduce_clifford_seq_nonempty:
  "gs \<noteq> [] \<Longrightarrow> reduce_clifford_seq gs = Inr (reduce_loop gate_I gs)"
  by (cases gs) (simp_all add: merged_I_left)

lemma cirq_inverse_nonempty: "cirq_inverse gs = [] \<longleftrightarrow> gs = []"
  by (simp add: cirq_inverse_def)

lemma invert_clifford_circuit_empty: "invert_clifford_circuit [] = Inl IndexError"
  by (simp add: invert_clifford_circuit_def cirq_inverse_def)

lemma invert_clifford_circuit_succeeds:
  "c \<noteq> [] \<Longrightarrow>
   invert_clifford_circuit c = Inr (c @ [reduce_loop gate_I (cirq_inverse c)])"
  by (simp add: invert_clifford_circuit_def reduce_clifford_seq_nonempty cirq_inverse_nonempty)

lemma invert_clifford_circuit_valid:
  assumes "c \<noteq> []" "list_all is_clifford c"
  shows "invert_clifford_circuit c = Inr (c @ [gate_inverse (reduce_loop gate_I c)])"
  using assms by (simp add: invert_clifford_circuit_succeeds reduce_loop_inverse)

lemma closing_identity:
  assumes "c \<noteq> []" "list_all is_clifford c"
  shows "reduce_clifford_seq (c @ [gate_inverse (reduce_loop gate_I c)]) = Inr gate_I"
proof -
  have P: "is_clifford (reduce_loop gate_I c)"
    by (rule reduce_loop_valid [OF is_clifford_I assms(2)])
  show ?thesis
    by (simp add: reduce_clifford_seq_nonempty reduce_loop_append merged_inverse_right [OF P])
qed

lemma length_interleave_op: "length (interleave_op c op) = 2 * length c"
  by (induction c) simp_all

lemma interleave_op_nth:
  "k < length c \<Longrightarrow> interleave_op c op ! (2 * k) = c ! k \<and> interleave_op c op ! (2 * k + 1) = op"
proof (induction c arbitrary: k)
  case Nil
  then show ?case by simp
next
  case (Cons g c)
  show ?case
  proof (cases k)
    case 0
    then show ?thesis by simp
  next
    case (Suc j)
    with Cons.prems have "j < length c" by simp
    from Cons.IH [OF this] show ?thesis using Suc by simp
  qed
qed

lemma interleave_op_valid:
  "list_all is_clifford c \<Longrightarrow> is_clifford op \<Longrightarrow> list_all is_clifford (interleave_op c op)"
  by (induction c) simp_all

lemma interleave_op_empty: "interleave_op c op = [] \<longleftrightarrow> c = []"
  by (cases c) simp_all

subsection \<open>The plain circuit\<close>

text \<open>
  Claim C7, as amended. For every non-empty base sequence of Clifford gates, of length
  \<open>L\<close>, the plain circuit is built and consists of \<open>L + 1\<close> gates before the
  measurement: the base sequence followed by the group inverse of its composition, so
  that the composition of all \<open>L + 1\<close> gates is the identity. It is the circuit of the
  RB sample, with \<open>circuit_depth = L + 1\<close>.
\<close>

theorem plain_circuit_structure:
  assumes "base_circuit \<noteq> []" and "list_all is_clifford base_circuit"
  shows "\<exists>c rest.
     reduce_clifford_seq base_circuit = Inr c \<and>
     invert_clifford_circuit base_circuit = Inr (base_circuit @ [gate_inverse c]) \<and>
     length (base_circuit @ [gate_inverse c]) = length base_circuit + 1 \<and>
     merged_with c (gate_inverse c) = gate_I \<and>
     merged_with (gate_inverse c) c = gate_I \<and>
     reduce_clifford_seq (base_circuit @ [gate_inverse c]) = Inr gate_I \<and>
     build_samples self depth base_circuit =
       Inr (\<lparr>raw_circuit = measured (base_circuit @ [gate_inverse c]), num_cycles = depth,
             circuit_depth = length base_circuit + 1, experiment_name = ''RB''\<rparr> # rest)"
proof -
  let ?c = "reduce_loop gate_I base_circuit"
  have c: "is_clifford ?c"
    by (rule reduce_loop_valid [OF is_clifford_I assms(2)])
  have inv: "invert_clifford_circuit base_circuit = Inr (base_circuit @ [gate_inverse ?c])"
    by (rule invert_clifford_circuit_valid [OF assms])
  have il: "interleave_op base_circuit g \<noteq> []" for g
    using assms(1) by (simp add: interleave_op_empty)
  have "\<exists>rest. build_samples self depth base_circuit =
       Inr (\<lparr>raw_circuit = measured (base_circuit @ [gate_inverse ?c]), num_cycles = depth,
             circuit_depth = length base_circuit + 1, experiment_name = ''RB''\<rparr> # rest)"
    by (cases "interleaved_gate self")
       (simp_all add: build_samples_def inv invert_clifford_circuit_succeeds [OF il])
  then show ?thesis
    using reduce_clifford_seq_nonempty [OF assms(1)] inv closing_identity [OF assms]
      merged_inverse_right [OF c] merged_inverse_left [OF c]
    by auto
qed

text \<open>The amended claim at the base sequence H, S.\<close>

theorem plain_circuit_structure_witness:
  "[gate_H, gate_Z_sqrt] \<noteq> [] \<and> list_all is_clifford [gate_H, gate_Z_sqrt] \<and>
   invert_clifford_circuit [gate_H, gate_Z_sqrt] =
     Inr [gate_H, gate_Z_sqrt, \<lparr>x_to = (PY, False), z_to = (PX, False)\<rparr>] \<and>
   reduce_clifford_seq [gate_H, gate_Z_sqrt, \<lparr>x_to = (PY, False), z_to = (PX, False)\<rparr>] = Inr gate_I"
  using plain_circuit_structure [where base_circuit = "[gate_H, gate_Z_sqrt]"
      and self = "\<lparr>interleaved_gate = None, num_qubits = 1\<rparr>" and depth = 2]
  by (simp add: is_clifford_def gate_H_def gate_Z_sqrt_def merged_with_def gate_inverse_def
      inverse_transform_def gate_I_def)

text \<open>
  Claim C7 as stated fails for \<open>L = 0\<close>: no plain circuit is built from the empty base
  sequence, since reducing its (empty) list of inverses raises \<open>IndexError\<close>.
\<close>

theorem plain_circuit_empty_fails:
  "invert_clifford_circuit [] = Inl IndexError \<and>
   build_samples \<lparr>interleaved_gate = None, num_qubits = 1\<rparr> 0 [] = Inl IndexError"
  by (simp add: build_samples_def invert_clifford_circuit_empty)

subsection \<open>The interleaved circuit\<close>

text \<open>
  Claim C8, as amended. When an interleaving gate is configured, for every non-empty
  base sequence of Clifford gates, of length \<open>L\<close>, the interleaved circuit is built
  and consists of \<open>2 L + 1\<close> gates before the measurement: each base gate followed by
  the interleaving gate, and then the group inverse of the composition of these \<open>2 L\<close>
  gates, so that the composition of the whole circuit is the identity. It is the circuit
  of the IRB sample, with \<open>circuit_depth = 2 L + 1\<close>.
\<close>

theorem interleaved_circuit_structure:
  assumes "base_circuit \<noteq> []" and "list_all is_clifford base_circuit"
    and "is_clifford gate" and "interleaved_gate self = Some gate"
  shows "\<exists>c rb_sample.
     reduce_clifford_seq (interleave_op base_circuit gate) = Inr c \<and>
     build_samples self depth base_circuit =
       Inr [rb_sample,
            \<lparr>raw_circuit = measured (interleave_op base_circuit gate @ [gate_inverse c]),
             num_cycles = depth, circuit_depth = 2 * length base_circuit + 1,
             experiment_name = ''IRB''\<rparr>] \<and>
     length (interleave_op base_circuit gate @ [gate_inverse c]) = 2 * length base_circuit + 1 \<and>
     (\<forall>k<length base_circuit.
        interleave_op base_circuit gate ! (2 * k) = base_circuit ! k \<and>
        interleave_op base_circuit gate ! (2 * k + 1) = gate) \<and>
     merged_with c (gate_inverse c) = gate_I \<and>
     merged_with (gate_inverse c) c = gate_I \<and>
     reduce_clifford_seq (interleave_op base_circuit gate @ [gate_inverse c]) = Inr gate_I"
proof -
  let ?i = "interleave_op base_circuit gate"
  let ?c = "reduce_loop gate_I ?i"
  have ne: "?i \<noteq> []" using assms(1) by (simp add: interleave_op_empty)
  have valid: "list_all is_clifford ?i" by (rule interleave_op_valid [OF assms(2,3)])
  have c: "is_clifford ?c" by (rule reduce_loop_valid [OF is_clifford_I valid])
  have rb: "invert_clifford_circuit base_circuit =
            Inr (base_circuit @ [gate_inverse (reduce_loop gate_I base_circuit)])"
    by (rule invert_clifford_circuit_valid [OF assms(1,2)])
  have irb: "invert_clifford_circuit ?i = Inr (?i @ [gate_inverse ?c])"
    by (rule invert_clifford_circuit_valid [OF ne valid])
  have build: "\<exists>rb_sample. build_samples self depth base_circuit =
       Inr [rb_sample,
            \<lparr>raw_circuit = measured (?i @ [gate_inverse ?c]),
             num_cycles = depth, circuit_depth = 2 * length base_circuit + 1,
             experiment_name = ''IRB''\<rparr>]"
    by (simp add: build_samples_def rb irb assms(4) length_interleave_op)
  have nth: "\<forall>k<length base_circuit. ?i ! (2 * k) = base_circuit ! k \<and> ?i ! (2 * k + 1) = gate"
    using interleave_op_nth by blast
  have len: "length (?i @ [gate_inverse ?c]) = 2 * length base_circuit + 1"
    by (simp add: length_interleave_op)
  show ?thesis
    using reduce_clifford_seq_nonempty [OF ne] build len nth closing_identity [OF ne valid]
      merged_inverse_right [OF c] merged_inverse_left [OF c]
    by blast
qed

text \<open>The amended claim at the base sequence H with the interleaving gate Z.\<close>

theorem interleaved_circuit_structure_witness:
  "[gate_H] \<noteq> [] \<and> list_all is_clifford [gate_H] \<and> is_clifford gate_Z \<and>
   interleaved_gate \<lparr>interleaved_gate = Some gate_Z, num_qubits = 1\<rparr> = Some gate_Z \<and>
   (\<exists>rb_sample. build_samples \<lparr>interleaved_gate = Some gate_Z, num_qubits = 1\<rparr> 1 [gate_H] =
      Inr [rb_sample,
           \<lparr>raw_circuit = measured [gate_H, gate_Z, \<lparr>x_to = (PZ, True), z_to = (PX, False)\<rparr>],
            num_cycles = 1, circuit_depth = 3, experiment_name = ''IRB''\<rparr>])"
  using interleaved_circuit_structure [where base_circuit = "[gate_H]" and gate = gate_Z
      and self = "\<lparr>interleaved_gate = Some gate_Z, num_qubits = 1\<rparr>" and depth = 1]
  by (simp add: is_clifford_def gate_H_def gate_Z_def merged_with_def gate_inverse_def
      inverse_transform_def gate_I_def)

text \<open>
  Claim C8 as stated fails for \<open>L = 0\<close>: interleaving the empty base sequence gives
  the empty circuit, its inversion raises \<open>IndexError\<close>, and no sample is built.
\<close>

theorem interleaved_circuit_empty_fails:
  "invert_clifford_circuit (interleave_op [] gate_Z) = Inl IndexError \<and>
   build_samples \<lparr>interleaved_gate = Some gate_Z, num_qubits = 1\<rparr> 0 [] = Inl IndexError"
  by (simp add: build_samples_def invert_clifford_circuit_empty)

subsection \<open>Inversion leaves its argument alone\<close>

text \<open>
  Claim C10. For every non-empty Clifford circuit in the store, both versions of
  \<open>_invert_clifford_circuit\<close> return a new circuit object, at an address different
  from that of the argument: it holds the gates of the argument followed by exactly one
  gate, the reduction of the inverted gate list. The argument and every other circuit of
  the store are unchanged. When the gates are Clifford gates, the appended gate closes
  the new circuit to the identity.
\<close>

theorem invert_clifford_circuit_frame:
  assumes "a < length h" and "h ! a \<noteq> []"
  shows "\<exists>h' b inv_element.
     reduce_clifford_seq (cirq_inverse (h ! a)) = Inr inv_element \<and>
     invert_clifford_circuit_obj h a = Inr (h', b) \<and>
     invert_clifford_circuit_css_obj h a = Inr (h', b) \<and>
     b \<noteq> a \<and> b = length h \<and> length h' = length h + 1 \<and>
     (\<forall>k<length h. h' ! k = h ! k) \<and>
     h' ! a = h ! a \<and>
     h' ! b = h ! a @ [inv_element] \<and>
     invert_clifford_circuit (h ! a) = Inr (h' ! b) \<and>
     (list_all is_clifford (h ! a) \<longrightarrow> reduce_clifford_seq (h' ! b) = Inr gate_I)"
proof -
  let ?c = "h ! a"
  let ?inv = "reduce_loop gate_I (cirq_inverse ?c)"
  let ?h' = "h @ [?c @ [?inv]]"
  have ne: "cirq_inverse ?c \<noteq> []" using assms(2) by (simp add: cirq_inverse_nonempty)
  have red: "reduce_clifford_seq (cirq_inverse ?c) = Inr ?inv"
    by (rule reduce_clifford_seq_nonempty [OF ne])
  have obj: "invert_clifford_circuit_obj h a = Inr (?h', length h)"
    by (simp add: invert_clifford_circuit_obj_def red circuit_add_def circuit_copy_def
        circuit_append_def nth_append)
  have css: "invert_clifford_circuit_css_obj h a = Inr (?h', length h)"
    by (simp add: invert_clifford_circuit_css_obj_def red Let_def)
  have frame: "\<forall>k<length h. ?h' ! k = h ! k" by (simp add: nth_append)
  have new: "?h' ! length h = ?c @ [?inv]" by simp
  have pure: "invert_clifford_circuit ?c = Inr (?h' ! length h)"
    using invert_clifford_circuit_succeeds [OF assms(2)] by simp
  have closing: "list_all is_clifford ?c \<longrightarrow> reduce_clifford_seq (?h' ! length h) = Inr gate_I"
    using closing_identity [OF assms(2)] by (simp add: reduce_loop_inverse)
  have "length h \<noteq> a" using assms(1) by simp
  moreover have "length ?h' = length h + 1" by simp
  moreover have "?h' ! a = h ! a" using assms(1) by (simp add: nth_append)
  ultimately show ?thesis
    using red obj css frame new pure closing by blast
qed

text \<open>The claim at a store that holds the single circuit H, S.\<close>

theorem invert_clifford_circuit_frame_witness:
  "(0::nat) < length [[gate_H, gate_Z_sqrt]] \<and> [[gate_H, gate_Z_sqrt]] ! 0 \<noteq> [] \<and>
   (\<exists>h' b. invert_clifford_circuit_obj [[gate_H, gate_Z_sqrt]] 0 = Inr (h', b) \<and>
      invert_clifford_circuit_css_obj [[gate_H, gate_Z_sqrt]] 0 = Inr (h', b) \<and>
      b \<noteq> 0 \<and> h' ! 0 = [gate_H, gate_Z_sqrt] \<and>
      h' ! b = [gate_H, gate_Z_sqrt, \<lparr>x_to = (PY, False), z_to = (PX, False)\<rparr>])"
proof -
  have hyp: "(0::nat) < length [[gate_H, gate_Z_sqrt]]" "[[gate_H, gate_Z_sqrt]] ! 0 \<noteq> []"
    by simp_all
  from invert_clifford_circuit_frame [OF hyp] obtain h' b inv_element where
    r: "reduce_clifford_seq (cirq_inverse ([[gate_H, gate_Z_sqrt]] ! 0)) = Inr inv_element"
    and o: "invert_clifford_circuit_obj [[gate_H, gate_Z_sqrt]] 0 = Inr (h', b)"
    and c: "invert_clifford_circuit_css_obj [[gate_H, gate_Z_sqrt]] 0 = Inr (h', b)"
    and b: "b \<noteq> 0"
    and old: "h' ! 0 = [[gate_H, gate_Z_sqrt]] ! 0"
    and new: "h' ! b = [[gate_H, gate_Z_sqrt]] ! 0 @ [inv_element]"
    by blast
  from r have "inv_element = \<lparr>x_to = (PY, False), z_to = (PX, False)\<rparr>"
    by (simp add: cirq_inverse_def gate_H_def gate_Z_sqrt_def merged_with_def gate_inverse_def
        inverse_transform_def)
  with o c b old new show ?thesis by auto
qed

subsection \<open>Drawing a Clifford gate\<close>

lemma sequence_sum_set_A:
  "sequence_sum set_A =
     Inr [gate_I, gate_Z_sqrt, gate_H,
          \<lparr>x_to = (PZ, False), z_to = (PY, False)\<rparr>,
          \<lparr>x_to = (PY, True), z_to = (PX, False)\<rparr>,
          \<lparr>x_to = (PX, False), z_to = (PY, True)\<rparr>]"
  by (simp add: set_A_def gate_H_def gate_Z_sqrt_def merged_with_def)

lemma all_choices_list:
  "all_choices =
     [(0, 0), (0, 1), (0, 2), (0, 3), (1, 0), (1, 1), (1, 2), (1, 3),
      (2, 0), (2, 1), (2, 2), (2, 3), (3, 0), (3, 1), (3, 2), (3, 3),
      (4, 0), (4, 1), (4, 2), (4, 3), (5, 0), (5, 1), (5, 2), (5, 3)]"
  unfolding all_choices_def by code_simp

lemma random_single_qubit_clifford_choices:
  "random_single_qubit_clifford r =
     map_sum id (\<lambda>g. (g, r\<lparr>pos := pos r + 2\<rparr>))
       (clifford_of_choices (draws r (pos r) mod 6) (draws r (Suc (pos r)) mod 4))"
  by (simp add: random_single_qubit_clifford_def clifford_of_choices_def sequence_sum_set_A
      random_choice_def set_B_def)


lemma clifford_outcomes_list:
  "clifford_outcomes = map Inr
    [\<lparr>x_to = (PX, False), z_to = (PZ, False)\<rparr>, \<lparr>x_to = (PX, False), z_to = (PZ, True)\<rparr>,
     \<lparr>x_to = (PX, True), z_to = (PZ, True)\<rparr>, \<lparr>x_to = (PX, True), z_to = (PZ, False)\<rparr>,
     \<lparr>x_to = (PY, False), z_to = (PZ, False)\<rparr>, \<lparr>x_to = (PY, True), z_to = (PZ, True)\<rparr>,
     \<lparr>x_to = (PY, False), z_to = (PZ, True)\<rparr>, \<lparr>x_to = (PY, True), z_to = (PZ, False)\<rparr>,
     \<lparr>x_to = (PZ, False), z_to = (PX, False)\<rparr>, \<lparr>x_to = (PZ, True), z_to = (PX, False)\<rparr>,
     \<lparr>x_to = (PZ, True), z_to = (PX, True)\<rparr>, \<lparr>x_to = (PZ, False), z_to = (PX, True)\<rparr>,
     \<lparr>x_to = (PZ, False), z_to = (PY, False)\<rparr>, \<lparr>x_to = (PZ, True), z_to = (PY, True)\<rparr>,
     \<lparr>x_to = (PZ, True), z_to = (PY, False)\<rparr>, \<lparr>x_to = (PZ, False), z_to = (PY, True)\<rparr>,
     \<lparr>x_to = (PY, True), z_to = (PX, False)\<rparr>, \<lparr>x_to = (PY, False), z_to = (PX, False)\<rparr>,
     \<lparr>x_to = (PY, True), z_to = (PX, True)\<rparr>, \<lparr>x_to = (PY, False), z_to = (PX, True)\<rparr>,
     \<lparr>x_to = (PX, False), z_to = (PY, True)\<rparr>, \<lparr>x_to = (PX, False), z_to = (PY, False)\<rparr>,
     \<lparr>x_to = (PX, True), z_to = (PY, True)\<rparr>, \<lparr>x_to = (PX, True), z_to = (PY, False)\<rparr>]"
  by (simp add: clifford_outcomes_def all_choices_list clifford_of_choices_def sequence_sum_set_A
      set_B_def gate_I_def gate_X_def gate_Y_def gate_Z_def gate_H_def gate_Z_sqrt_def
      merged_with_def)

lemma distinct_clifford_outcomes: "distinct clifford_outcomes"
  unfolding clifford_outcomes_list by (simp add: distinct_map)

lemma set_clifford_outcomes: "set clifford_outcomes = Inr ` {g. is_clifford g}"
proof -
  have "Inr g \<in> set clifford_outcomes \<longleftrightarrow> is_clifford g" for g
  proof
    assume "Inr g \<in> set clifford_outcomes"
    then show "is_clifford g"
      unfolding clifford_outcomes_list by (auto simp add: is_clifford_def)
  next
    assume "is_clifford g"
    then show "Inr g \<in> set clifford_outcomes"
    proof (cases g rule: is_clifford_cases)
    qed (auto simp add: clifford_outcomes_list)
  qed
  moreover have "\<exists>g. x = Inr g" if "x \<in> set clifford_outcomes" for x
    using that unfolding clifford_outcomes_list by auto
  ultimately show ?thesis by (fastforce simp add: image_iff)
qed

lemma count_list_distinct:
  "distinct xs \<Longrightarrow> count_list xs x = (if x \<in> set xs then 1 else 0)"
  by (induction xs) auto

text \<open>
  Claim C4. A draw composes the element of the six-element list \<open>set_A\<close> (I, S, H, HS,
  SH, HSH) and the element of the four-element list \<open>set_B\<close> (I, X, Y, Z) at the two
  indices chosen by \<open>random.choice\<close>. The 24 compositions, one for each pair of
  indices, are pairwise distinct and are exactly the 24 single qubit Clifford gates, so
  each Clifford gate is the outcome of exactly one pair of choices: uniform and
  independent choices give a uniform draw from the group.
\<close>

theorem random_clifford_uniform:
  "random_single_qubit_clifford r =
     map_sum id (\<lambda>g. (g, r\<lparr>pos := pos r + 2\<rparr>))
       (clifford_of_choices (draws r (pos r) mod 6) (draws r (Suc (pos r)) mod 4)) \<and>
   length clifford_outcomes = 24 \<and>
   distinct clifford_outcomes \<and>
   set clifford_outcomes = Inr ` {g. is_clifford g} \<and>
   card {g. is_clifford g} = 24 \<and>
   count_list clifford_outcomes (Inr g) = (if is_clifford g then 1 else 0)"
proof -
  have len: "length clifford_outcomes = 24"
    by (simp add: clifford_outcomes_list)
  have "card (set clifford_outcomes) = 24"
    using distinct_card [OF distinct_clifford_outcomes] len by simp
  then have card: "card {g. is_clifford g} = 24"
    by (simp add: set_clifford_outcomes card_image)
  have "count_list clifford_outcomes (Inr g) = (if is_clifford g then 1 else 0)"
    by (auto simp add: count_list_distinct [OF distinct_clifford_outcomes] set_clifford_outcomes)
  with len card show ?thesis
    using random_single_qubit_clifford_choices distinct_clifford_outcomes set_clifford_outcomes
    by blast
qed

subsection \<open>Building the samples\<close>

lemma clifford_of_choices_valid:
  assumes "i < 6" "j < 4"
  shows "\<exists>g. clifford_of_choices i j = Inr g \<and> is_clifford g"
proof -
  have "(i, j) \<in> set all_choices"
    using assms by (simp add: all_choices_def)
  then have "clifford_of_choices i j \<in> set clifford_outcomes"
    unfolding clifford_outcomes_def by force
  then show ?thesis by (auto simp add: set_clifford_outcomes)
qed

lemma random_single_qubit_clifford_succeeds:
  "\<exists>g. random_single_qubit_clifford r = Inr (g, r\<lparr>pos := pos r + 2\<rparr>) \<and> is_clifford g"
proof -
  obtain g where "clifford_of_choices (draws r (pos r) mod 6) (draws r (Suc (pos r)) mod 4) = Inr g"
    and "is_clifford g"
    using clifford_of_choices_valid [of "draws r (pos r) mod 6" "draws r (Suc (pos r)) mod 4"]
    by auto
  then show ?thesis by (simp add: random_single_qubit_clifford_choices)
qed

lemma random_cliffords_succeeds:
  "\<exists>gs. random_cliffords n r = Inr (gs, r\<lparr>pos := pos r + 2 * n\<rparr>) \<and>
        length gs = n \<and> list_all is_clifford gs"
proof (induction n arbitrary: r)
  case 0
  show ?case by simp
next
  case (Suc n)
  obtain g where g: "random_single_qubit_clifford r = Inr (g, r\<lparr>pos := pos r + 2\<rparr>)"
    and vg: "is_clifford g"
    using random_single_qubit_clifford_succeeds by blast
  obtain gs where gs: "random_cliffords n (r\<lparr>pos := pos r + 2\<rparr>) =
      Inr (gs, r\<lparr>pos := pos r + 2\<rparr>\<lparr>pos := pos (r\<lparr>pos := pos r + 2\<rparr>) + 2 * n\<rparr>)"
    and len: "length gs = n" and vgs: "list_all is_clifford gs"
    using Suc.IH [of "r\<lparr>pos := pos r + 2\<rparr>"] by blast
  show ?case
    using g vg gs len vgs by (simp add: add.assoc)
qed


lemma build_samples_empty: "build_samples self depth [] = Inl IndexError"
  by (simp add: build_samples_def invert_clifford_circuit_empty)

lemma build_samples_nonempty:
  assumes "base_circuit \<noteq> []"
  shows "\<exists>new. build_samples self depth base_circuit = Inr new \<and>
     map (\<lambda>s. (num_cycles s, experiment_name s)) new =
       (if interleaved_gate self = None then [(depth, ''RB'')]
        else [(depth, ''RB''), (depth, ''IRB'')])"
proof -
  have il: "interleave_op base_circuit g \<noteq> []" for g
    using assms by (simp add: interleave_op_empty)
  show ?thesis
    by (cases "interleaved_gate self")
       (simp_all add: build_samples_def invert_clifford_circuit_succeeds [OF assms]
          invert_clifford_circuit_succeeds [OF il])
qed

lemma build_samples_tags:
  assumes "build_samples self depth base_circuit = Inr new"
  shows "map (\<lambda>s. (num_cycles s, experiment_name s)) new =
       (if interleaved_gate self = None then [(depth, ''RB'')]
        else [(depth, ''RB''), (depth, ''IRB'')])"
proof (cases "base_circuit = []")
  case True
  with assms show ?thesis by (simp add: build_samples_empty)
next
  case False
  from build_samples_nonempty [OF False, of self depth] assms show ?thesis by auto
qed

lemma build_loop_tags:
  "build_loop self pairs acc r = Inr (samples, r') \<Longrightarrow>
   map (\<lambda>s. (num_cycles s, experiment_name s)) samples =
     map (\<lambda>s. (num_cycles s, experiment_name s)) acc @
     concat (map (\<lambda>(t, d). if interleaved_gate self = None then [(d, ''RB'')]
                            else [(d, ''RB''), (d, ''IRB'')]) pairs)"
proof (induction pairs arbitrary: acc r)
  case Nil
  then show ?case by simp
next
  case (Cons p pairs)
  obtain t d where p: "p = (t, d)" by (cases p)
  obtain gs r1 where gs: "random_cliffords (nat d) r = Inr (gs, r1)"
    using random_cliffords_succeeds by blast
  from Cons.prems obtain new where new: "build_samples self d gs = Inr new"
    and rest: "build_loop self pairs (acc @ new) r1 = Inr (samples, r')"
    by (auto simp add: p gs split: sum.splits)
  from Cons.IH [OF rest] build_samples_tags [OF new] show ?case
    by (simp add: p)
qed

lemma build_loop_succeeds:
  "\<forall>p\<in>set pairs. 1 \<le> snd p \<Longrightarrow> \<exists>samples r'. build_loop self pairs acc r = Inr (samples, r')"
proof (induction pairs arbitrary: acc r)
  case Nil
  show ?case by simp
next
  case (Cons p pairs)
  obtain t d where p: "p = (t, d)" by (cases p)
  with Cons.prems have d: "1 \<le> d" by simp
  obtain gs r1 where gs: "random_cliffords (nat d) r = Inr (gs, r1)" and len: "length gs = nat d"
    using random_cliffords_succeeds by blast
  from len d have "gs \<noteq> []" by auto
  from build_samples_nonempty [OF this, of self d] obtain new
    where new: "build_samples self d gs = Inr new" by blast
  from Cons.prems have "\<forall>p\<in>set pairs. 1 \<le> snd p" by simp
  from Cons.IH [OF this, of "acc @ new" r1] show ?case
    by (simp add: p gs new)
qed


text \<open>
  Claim C3, as amended. For every \<open>num_circuits\<close> and every sequence of depths that
  are all at least 1, circuit building succeeds and produces, for each (trial, depth)
  pair in the order of the loop, the RB sample of that depth, followed by the IRB sample
  when an interleaving gate is configured.
\<close>

theorem build_circuits_positive_depths:
  assumes "\<forall>d\<in>set cycle_depths. 1 \<le> d"
  shows "\<exists>samples r'.
     build_circuits self num_circuits cycle_depths r = Inr (samples, r') \<and>
     map (\<lambda>s. (num_cycles s, experiment_name s)) samples =
       concat (map (\<lambda>(t, d). if interleaved_gate self = None then [(d, ''RB'')]
                              else [(d, ''RB''), (d, ''IRB'')])
                   (List.product [0..<nat num_circuits] cycle_depths))"
proof -
  have "\<forall>p\<in>set (List.product [0..<nat num_circuits] cycle_depths). 1 \<le> snd p"
    using assms by auto
  from build_loop_succeeds [OF this, of self "[]" r] obtain samples r'
    where ok: "build_loop self (List.product [0..<nat num_circuits] cycle_depths) [] r =
               Inr (samples, r')" by blast
  from build_loop_tags [OF ok] ok show ?thesis
    by (simp add: build_circuits_def)
qed

text \<open>The amended claim at one trial, the depths 1 and 2 and the interleaving gate Z.\<close>

theorem build_circuits_positive_depths_witness:
  "list_all (\<lambda>d. 1 \<le> d) [1, 2::int] \<and>
   (\<exists>samples r'.
      build_circuits \<lparr>interleaved_gate = Some gate_Z, num_qubits = 1\<rparr> 1 [1, 2]
        \<lparr>draws = (\<lambda>_. 0), pos = 0\<rparr> = Inr (samples, r') \<and>
      map (\<lambda>s. (num_cycles s, experiment_name s)) samples =
        [(1, ''RB''), (1, ''IRB''), (2, ''RB''), (2, ''IRB'')])"
  using build_circuits_positive_depths [of "[1, 2]"
      "\<lparr>interleaved_gate = Some gate_Z, num_qubits = 1\<rparr>" 1 "\<lparr>draws = (\<lambda>_. 0), pos = 0\<rparr>"]
  by simp

text \<open>
  Claim C3 as stated fails at depth 0: the base circuit is empty,
  \<open>_invert_clifford_circuit\<close> reduces the empty tuple of inverses, and the
  \<open>IndexError\<close> of \<open>gate_seq[0]\<close> ends the build.
\<close>

theorem build_circuits_depth_zero_fails:
  "build_circuits \<lparr>interleaved_gate = Some gate_Z, num_qubits = 1\<rparr> 1 [0]
     \<lparr>draws = (\<lambda>_. 0), pos = 0\<rparr> = Inl IndexError"
  by (simp add: build_circuits_def build_samples_empty)

subsection \<open>The analysis\<close>

lemmas example_defs = rb_row_def irb_row_def example_plain_data_def example_interleaved_data_def
  example_one_usable_row_def example_zero_survival_def example_no_usable_row_def
  example_one_interleaved_row_def example_one_plain_row_def example_plain_regression_fails_def

lemmas table_defs = with_survival_columns_def dropna_def regression_x_def regression_y_def query_def
  np_sub_def

lemmas linregress_defs = linregress_1_15_def np_amax_def np_amin_def np_maximum_def np_minimum_def
  np_eq_def np_cov_bias_def np_mean_def np_sum_def Let_def

lemma pow2_neg_powr: "pow2_neg n = 2 powr (- real_of_int n)"
proof (cases "0 \<le> n")
  case True
  then have "(2::real) powr real_of_int n = 2 powr real (nat n)" by simp
  also have "\<dots> = 2 ^ nat n" by (simp add: powr_realpow)
  finally show ?thesis
    using True by (simp add: pow2_neg_def powr_minus divide_inverse)
next
  case False
  then have "(2::real) powr (- real_of_int n) = 2 powr real (nat (- n))" by simp
  also have "\<dots> = 2 ^ nat (- n)" by (simp add: powr_realpow)
  finally show ?thesis
    using False by (simp add: pow2_neg_def)
qed







text \<open>
  Claim C5. When an interleaving gate is configured and both regressions return finite
  slopes and standard errors: each decay coefficient is the exponential of its slope, and
  its standard deviation is the standard error of the slope times the decay coefficient;
  the interleaved gate error is \<open>(1 - r_irb / r_rb) (1 - 2\<^sup>-\<^sup>n)\<close> and its standard
  deviation is the square root of \<open>(\<sigma>_irb / (2 r_rb))\<^sup>2 + (r_irb \<sigma>_rb / (2 r_rb\<^sup>2))\<^sup>2\<close>.
  This holds for every regression function.
\<close>

theorem interleaved_gate_error_estimate:
  assumes "interleaved_gate self = Some gate"
    and "rows = dropna (map with_survival_columns raw_data)"
    and "linregress (regression_x rows ''RB'') (regression_y rows ''RB'') =
           Inr \<lparr>slope = Fin s_rb, stderr = Fin e_rb\<rparr>"
    and "linregress (regression_x rows ''IRB'') (regression_y rows ''IRB'') =
           Inr \<lparr>slope = Fin s_irb, stderr = Fin e_irb\<rparr>"
  shows "let r_rb = exp s_rb; \<sigma>_rb = e_rb * r_rb;
             r_irb = exp s_irb; \<sigma>_irb = e_irb * r_irb
         in analyze_results linregress self raw_data =
            Inr (rows, IRBResults
              \<lparr>rb_decay_coefficient = Fin r_rb,
               rb_decay_coefficient_std = Fin \<sigma>_rb,
               irb_decay_coefficient = Fin r_irb,
               irb_decay_coefficient_std = Fin \<sigma>_irb,
               average_interleaved_gate_error =
                 Fin ((1 - r_irb / r_rb) * (1 - 2 powr (- real_of_int (num_qubits self)))),
               average_interleaved_gate_error_std =
                 Fin (sqrt ((\<sigma>_irb / (2 * r_rb))\<^sup>2 + (r_irb * \<sigma>_rb / (2 * r_rb\<^sup>2))\<^sup>2))\<rparr>)"
  using assms(1) assms(3,4) [unfolded assms(2)]
  by (auto simp add: analyze_results_def assms(2) Let_def np_sub_def pow2_neg_powr
      power2_eq_square not_less intro!: add_nonneg_nonneg divide_nonneg_nonneg)

text \<open>
  The claim on a table with two RB rows and two IRB rows: the decay coefficients are
  \<open>1/2\<close> and \<open>1/4\<close>, the interleaved gate error \<open>(1 - 1/2) / 2\<close>.
\<close>

theorem interleaved_gate_error_estimate_witness:
  "interleaved_gate \<lparr>interleaved_gate = Some gate_Z, num_qubits = 1\<rparr> = Some gate_Z \<and>
   linregress_1_15 (regression_x (dropna (map with_survival_columns example_interleaved_data)) ''RB'')
     (regression_y (dropna (map with_survival_columns example_interleaved_data)) ''RB'') =
     Inr \<lparr>slope = Fin (ln (1 / 2)), stderr = Fin 0\<rparr> \<and>
   linregress_1_15 (regression_x (dropna (map with_survival_columns example_interleaved_data)) ''IRB'')
     (regression_y (dropna (map with_survival_columns example_interleaved_data)) ''IRB'') =
     Inr \<lparr>slope = Fin (ln (1 / 4)), stderr = Fin 0\<rparr> \<and>
   analyze_results linregress_1_15 \<lparr>interleaved_gate = Some gate_Z, num_qubits = 1\<rparr> example_interleaved_data =
     Inr (dropna (map with_survival_columns example_interleaved_data), IRBResults
       \<lparr>rb_decay_coefficient = Fin (1 / 2), rb_decay_coefficient_std = Fin 0,
        irb_decay_coefficient = Fin (1 / 4), irb_decay_coefficient_std = Fin 0,
        average_interleaved_gate_error = Fin (1 / 4),
        average_interleaved_gate_error_std = Fin 0\<rparr>)"
proof -
  let ?self = "\<lparr>interleaved_gate = Some gate_Z, num_qubits = 1\<rparr>"
  have gate: "interleaved_gate ?self = Some gate_Z" by simp
  have rb: "linregress_1_15
      (regression_x (dropna (map with_survival_columns example_interleaved_data)) ''RB'')
      (regression_y (dropna (map with_survival_columns example_interleaved_data)) ''RB'') =
      Inr \<lparr>slope = Fin (ln (1 / 2)), stderr = Fin 0\<rparr>"
    by (simp add: example_defs table_defs linregress_defs)
  have irb: "linregress_1_15
      (regression_x (dropna (map with_survival_columns example_interleaved_data)) ''IRB'')
      (regression_y (dropna (map with_survival_columns example_interleaved_data)) ''IRB'') =
      Inr \<lparr>slope = Fin (ln (1 / 4)), stderr = Fin 0\<rparr>"
    by (simp add: example_defs table_defs linregress_defs)
  from interleaved_gate_error_estimate [OF gate refl rb irb]
  have "analyze_results linregress_1_15 ?self example_interleaved_data =
     Inr (dropna (map with_survival_columns example_interleaved_data), IRBResults
       \<lparr>rb_decay_coefficient = Fin (1 / 2), rb_decay_coefficient_std = Fin 0,
        irb_decay_coefficient = Fin (1 / 4), irb_decay_coefficient_std = Fin 0,
        average_interleaved_gate_error = Fin (1 / 4),
        average_interleaved_gate_error_std = Fin 0\<rparr>)"
    by (simp add: Let_def powr_minus)
  with gate rb irb show ?thesis by blast
qed

subsection \<open>Plain randomised benchmarking\<close>






subsection \<open>Rows that the analysis drops\<close>

text \<open>
  The logarithm of a negative survival probability is NaN, so \<open>dropna\<close> removes the
  rows with \<open>P(0) < 0.5\<close>, as the comment beside it says.
\<close>

lemma np_log_negative: "np_less x (Fin 0) \<Longrightarrow> np_log x = NaN"
  by (cases x) simp_all

lemma dropna_survival:
  assumes "r \<in> set (dropna (map with_survival_columns raw_data))"
  shows "survival_prob r \<noteq> NaN \<and> \<not> np_less (survival_prob r) (Fin 0)"
proof -
  from assms obtain row where r: "r = with_survival_columns row"
    and keep: "survival_prob r \<noteq> NaN" "log_survival_prob r \<noteq> NaN"
    by (auto simp add: dropna_def)
  have "log_survival_prob r = np_log (survival_prob r)"
    by (simp add: r with_survival_columns_def Let_def)
  with keep np_log_negative [of "survival_prob r"] show ?thesis by auto
qed

text \<open>
  Claim C2. Rows whose survival probability is \<open>\<le> 0\<close> are dropped and never appear in
  the input of the regression. The code does not do this for a survival probability of
  exactly 0. In the table with \<open>P(0) = 1\<close> at depth 1, \<open>P(0) = 0.5\<close> at depth 2 and
  \<open>P(0) = 0.25\<close> at depth 3, the row of depth 2 has survival probability 0 and
  logarithm \<open>-inf\<close>, which is not NaN: \<open>dropna\<close> keeps it, while it drops the row of depth
  3. The regression is called with \<open>x = [1, 2]\<close> and \<open>y = [0, -inf]\<close>, whatever the
  regression is, and with the regression of scipy up to 1.15 every field of the results
  is NaN.
\<close>

theorem zero_survival_kept:
  "survival_prob (with_survival_columns (rb_row 2 (1 / 2))) = Fin 0 \<and>
   with_survival_columns (rb_row 2 (1 / 2)) \<in>
     set (query (dropna (map with_survival_columns example_zero_survival)) ''RB'') \<and>
   with_survival_columns (rb_row 3 (1 / 4)) \<notin>
     set (query (dropna (map with_survival_columns example_zero_survival)) ''RB'') \<and>
   regression_x (dropna (map with_survival_columns example_zero_survival)) ''RB'' = [Fin 1, Fin 2] \<and>
   regression_y (dropna (map with_survival_columns example_zero_survival)) ''RB'' = [Fin 0, NegInf] \<and>
   map_sum id snd (analyze_results linregress \<lparr>interleaved_gate = None, num_qubits = 1\<rparr>
       example_zero_survival) =
     map_sum id
       (\<lambda>rb_model. RBResults
          \<lparr>rb_decay_coefficient = np_exp (slope rb_model),
           rb_decay_coefficient_std = np_mul (stderr rb_model) (np_exp (slope rb_model)),
           average_gate_error = np_mul (Fin (1 / 2)) (np_sub (Fin 1) (np_exp (slope rb_model))),
           average_gate_error_std =
             np_mul (Fin (1 / 2)) (np_mul (stderr rb_model) (np_exp (slope rb_model)))\<rparr>)
       (linregress [Fin 1, Fin 2] [Fin 0, NegInf]) \<and>
   map_sum id snd (analyze_results linregress_1_15 \<lparr>interleaved_gate = None, num_qubits = 1\<rparr>
       example_zero_survival) =
     Inr (RBResults
       \<lparr>rb_decay_coefficient = NaN, rb_decay_coefficient_std = NaN,
        average_gate_error = NaN, average_gate_error_std = NaN\<rparr>)"
proof -
  have x: "regression_x (dropna (map with_survival_columns example_zero_survival)) ''RB'' =
      [Fin 1, Fin 2]"
    by (simp add: example_defs table_defs Let_def)
  have y: "regression_y (dropna (map with_survival_columns example_zero_survival)) ''RB'' =
      [Fin 0, NegInf]"
    by (simp add: example_defs table_defs Let_def)
  have fit: "linregress_1_15 [Fin 1, Fin 2] [Fin 0, NegInf] = Inr \<lparr>slope = NaN, stderr = Fin 0\<rparr>"
    by (simp add: linregress_defs np_sub_def signed_inf_def)
  have any: "map_sum id snd (analyze_results lr \<lparr>interleaved_gate = None, num_qubits = 1\<rparr>
       example_zero_survival) =
     map_sum id
       (\<lambda>rb_model. RBResults
          \<lparr>rb_decay_coefficient = np_exp (slope rb_model),
           rb_decay_coefficient_std = np_mul (stderr rb_model) (np_exp (slope rb_model)),
           average_gate_error = np_mul (Fin (1 / 2)) (np_sub (Fin 1) (np_exp (slope rb_model))),
           average_gate_error_std =
             np_mul (Fin (1 / 2)) (np_mul (stderr rb_model) (np_exp (slope rb_model)))\<rparr>)
       (lr [Fin 1, Fin 2] [Fin 0, NegInf])" for lr
    by (cases "lr [Fin 1, Fin 2] [Fin 0, NegInf]")
       (simp_all add: analyze_results_def x y Let_def pow2_neg_def)
  have nan: "map_sum id snd (analyze_results linregress_1_15
       \<lparr>interleaved_gate = None, num_qubits = 1\<rparr> example_zero_survival) =
     Inr (RBResults
       \<lparr>rb_decay_coefficient = NaN, rb_decay_coefficient_std = NaN,
        average_gate_error = NaN, average_gate_error_std = NaN\<rparr>)"
    by (simp add: any fit np_sub_def)
  have rest: "survival_prob (with_survival_columns (rb_row 2 (1 / 2))) = Fin 0 \<and>
   with_survival_columns (rb_row 2 (1 / 2)) \<in>
     set (query (dropna (map with_survival_columns example_zero_survival)) ''RB'') \<and>
   with_survival_columns (rb_row 3 (1 / 4)) \<notin>
     set (query (dropna (map with_survival_columns example_zero_survival)) ''RB'')"
    by (simp add: example_defs table_defs Let_def)
  from rest x y any [of linregress] nan show ?thesis by blast
qed

subsection \<open>Fewer than two usable rows\<close>











end
